theory Spec2Isabelle
  imports Complex_Main
begin

section \<open>JavaScript values\<close>

text \<open>
  A JavaScript number is modelled as a rational or \<open>NaN\<close>. The code only parses an
  integer, divides it by the constant \<open>100 * 1024\<close>, rounds up and takes a maximum, and
  copies \<open>totalAmount\<close> unchanged; infinities, the sign of zero and the rounding of
  doubles beyond 2^53 are outside the model.
\<close>

datatype number = NaN | Finite rat

datatype jsval =
    JUndefined
  | JNull
  | JNumber number
  | JString string
  | JObject "(string \<times> jsval) list"

type_synonym jsobject = "(string \<times> jsval) list"

text \<open>Truthiness, as \<open>if (x)\<close>, \<open>!x\<close>, \<open>x ? a : b\<close> and \<open>x || y\<close> read a value.\<close>

fun truthy :: "jsval \<Rightarrow> bool" where
  "truthy JUndefined = False"
| "truthy JNull = False"
| "truthy (JNumber NaN) = False"
| "truthy (JNumber (Finite q)) = (q \<noteq> 0)"
| "truthy (JString s) = (s \<noteq> [])"
| "truthy (JObject kvs) = True"

text \<open>A value of TypeScript type \<open>string | undefined\<close> or \<open>string | null\<close>.\<close>

fun truthy_string :: "string option \<Rightarrow> bool" where
  "truthy_string None = False"
| "truthy_string (Some s) = (s \<noteq> [])"

text \<open>\<open>x || d\<close> for such a value.\<close>

fun or_else :: "string option \<Rightarrow> string \<Rightarrow> string" where
  "or_else None d = d"
| "or_else (Some s) d = (if s = [] then d else s)"

fun string_or_undefined :: "string option \<Rightarrow> jsval" where
  "string_or_undefined None = JUndefined"
| "string_or_undefined (Some s) = JString s"

fun string_or_null :: "string option \<Rightarrow> jsval" where
  "string_or_null None = JNull"
| "string_or_null (Some s) = JString s"

fun number_or_undefined :: "number option \<Rightarrow> jsval" where
  "number_or_undefined None = JUndefined"
| "number_or_undefined (Some n) = JNumber n"

text \<open>
  A thrown value, as far as the code reads it: its \<open>message\<close> property, which is
  \<open>undefined\<close> (\<open>None\<close>) when the value thrown is not an \<open>Error\<close>.
\<close>

datatype thrown = Thrown (message: "string option")

definition new_Error :: "string \<Rightarrow> thrown" where
  "new_Error msg = Thrown (Some msg)"

text \<open>An awaited promise either resolves with a value or rejects with a thrown value.\<close>

datatype 'a outcome = Returns 'a | Throws thrown

section \<open>Types of the repository\<close>

text \<open>\<open>ProcessingResult\<close> of \<open>types/document\<close>: \<open>{ success: boolean; error?: string }\<close>.\<close>

record ProcessingResult =
  success :: bool
  error :: "string option"

text \<open>
  The record that \<open>extractDocumentInfo\<close> resolves with. \<open>processDocument\<close> reads the
  four properties that interface \<open>DocumentInfo\<close> of \<open>types/document\<close> declares, all
  optional (\<open>None\<close> is \<open>undefined\<close>); whatever other properties the object has are
  only copied into the details of the log entry.
\<close>

record ExtractedInfo =
  vendorName :: "string option"
  invoiceNumber :: "string option"
  invoiceDate :: "string option"
  totalAmount :: "number option"
  otherProperties :: "(string \<times> jsval) list"

text \<open>The argument object of \<open>logProcessing\<close>, as \<open>processDocument\<close> builds it.\<close>

record LogEntry =
  log_documentId :: string
  log_status :: string
  log_step :: string
  log_details :: jsobject
  log_errorMessage :: "string option"

text \<open>
  \<open>{ data: { publicUrl }, error }\<close> of \<open>supabase.storage.from(..).getPublicUrl\<close>. A
  response without \<open>data\<close> makes the destructuring throw: that is the outcome \<open>Throws\<close>.
\<close>

record UrlResponse =
  publicUrl :: string
  urlError :: "thrown option"

text \<open>The response to \<open>fetch(url, { method: 'HEAD' })\<close>, as far as the code reads it.\<close>

record HeadResponse =
  ok :: bool
  content_length :: "string option"

section \<open>Collaborators and the world\<close>

text \<open>
  Every collaborator is a parameter: what it answers to a call with given arguments.
  \<open>upsert\<close> and \<open>select_page_count\<close> answer with the \<open>error\<close> of the response (its
  message), \<open>None\<close> when the database accepted the request. \<open>parseDate\<close> is the pure
  date normalisation of \<open>utils/date\<close> (\<open>None\<close> is \<open>null\<close>). \<open>Date_now\<close> is the
  clock at its n-th reading, \<open>toISOString\<close> the rendering of an instant.
\<close>

record collaborators =
  logProcessing :: "LogEntry \<Rightarrow> unit outcome"
  getPublicUrl :: "string \<Rightarrow> UrlResponse outcome"
  extractDocumentInfo :: "string \<Rightarrow> ExtractedInfo option outcome"
  parseDate :: "string \<Rightarrow> string option"
  upsert :: "jsobject \<Rightarrow> string option outcome"
  select_page_count :: "string \<Rightarrow> string option outcome"
  fetch_head :: "string \<Rightarrow> HeadResponse outcome"
  Date_now :: "nat \<Rightarrow> int"
  toISOString :: "int \<Rightarrow> string"

datatype call =
    LogCall LogEntry
  | GetPublicUrlCall string
  | ExtractCall string
  | UpsertCall jsobject
  | SelectCall string
  | FetchHeadCall string

text \<open>
  The world: the rows of table \<open>document_info\<close>, every collaborator call made so far
  (whatever its outcome), and how often the clock has been read.
\<close>

record world =
  document_info :: "jsobject list"
  calls :: "call list"
  clock_reads :: nat

type_synonym 'a io = "world \<Rightarrow> (thrown + 'a) \<times> world"

definition io_return :: "'a \<Rightarrow> 'a io" where
  "io_return x = (\<lambda>w. (Inr x, w))"

definition io_throw :: "thrown \<Rightarrow> 'a io" where
  "io_throw e = (\<lambda>w. (Inl e, w))"

definition io_bind :: "'a io \<Rightarrow> ('a \<Rightarrow> 'b io) \<Rightarrow> 'b io" where
  "io_bind m f = (\<lambda>w. case m w of (Inl e, w') \<Rightarrow> (Inl e, w') | (Inr x, w') \<Rightarrow> f x w')"

text \<open>\<open>try { m } catch (error) { h error }\<close>\<close>

definition io_catch :: "'a io \<Rightarrow> (thrown \<Rightarrow> 'a io) \<Rightarrow> 'a io" where
  "io_catch m h = (\<lambda>w. case m w of (Inl e, w') \<Rightarrow> h e w' | (Inr x, w') \<Rightarrow> (Inr x, w'))"

text \<open>\<open>await\<close> of a collaborator call: the call is recorded, then it resolves or rejects.\<close>

definition await_call :: "call \<Rightarrow> 'a outcome \<Rightarrow> 'a io" where
  "await_call k out =
     (\<lambda>w. (case out of Returns x \<Rightarrow> Inr x | Throws t \<Rightarrow> Inl t, w\<lparr>calls := calls w @ [k]\<rparr>))"

definition call_logProcessing :: "collaborators \<Rightarrow> LogEntry \<Rightarrow> unit io" where
  "call_logProcessing c entry = await_call (LogCall entry) (logProcessing c entry)"

definition call_getPublicUrl :: "collaborators \<Rightarrow> string \<Rightarrow> UrlResponse io" where
  "call_getPublicUrl c path = await_call (GetPublicUrlCall path) (getPublicUrl c path)"

definition call_extractDocumentInfo :: "collaborators \<Rightarrow> string \<Rightarrow> ExtractedInfo option io" where
  "call_extractDocumentInfo c url = await_call (ExtractCall url) (extractDocumentInfo c url)"

definition read_clock :: "collaborators \<Rightarrow> int io" where
  "read_clock c = (\<lambda>w. (Inr (Date_now c (clock_reads w)), w\<lparr>clock_reads := Suc (clock_reads w)\<rparr>))"

text \<open>\<open>new Date().toISOString()\<close>\<close>

definition new_Date_toISOString :: "collaborators \<Rightarrow> string io" where
  "new_Date_toISOString c = io_bind (read_clock c) (\<lambda>t. io_return (toISOString c t))"

subsection \<open>The table \<open>document_info\<close>\<close>

text \<open>
  The request body is the JSON of the object: a property whose value is \<open>undefined\<close> is
  left out, \<open>NaN\<close> is written as \<open>null\<close>.
\<close>

fun is_undefined :: "jsval \<Rightarrow> bool" where
  "is_undefined JUndefined = True"
| "is_undefined _ = False"

fun json_value :: "jsval \<Rightarrow> jsval" where
  "json_value (JNumber NaN) = JNull"
| "json_value v = v"

definition JSON_body :: "jsobject \<Rightarrow> jsobject" where
  "JSON_body obj = map (\<lambda>(k, v). (k, json_value v)) (filter (\<lambda>(k, v). \<not> is_undefined v) obj)"

text \<open>
  \<open>upsert(row, { onConflict: 'document_id', ignoreDuplicates: false })\<close>: a row with
  the same \<open>document_id\<close> takes the values of the columns the request supplies, and a
  new row is inserted when there is none.
\<close>

definition key_of :: "jsobject \<Rightarrow> jsval option" where
  "key_of r = map_of r ''document_id''"

definition merge_row :: "jsobject \<Rightarrow> jsobject \<Rightarrow> jsobject" where
  "merge_row old new = new @ filter (\<lambda>(k, v). k \<notin> set (map fst new)) old"

definition upsert_row :: "jsobject \<Rightarrow> jsobject list \<Rightarrow> jsobject list" where
  "upsert_row new table =
     (if list_ex (\<lambda>r. key_of r = key_of new) table
      then map (\<lambda>r. if key_of r = key_of new then merge_row r new else r) table
      else table @ [new])"

definition rows_for :: "string \<Rightarrow> world \<Rightarrow> jsobject list" where
  "rows_for documentId w =
     filter (\<lambda>r. key_of r = Some (JString documentId)) (document_info w)"

text \<open>A column of a stored row; a column the row does not hold is SQL \<open>NULL\<close>.\<close>

definition column :: "jsobject \<Rightarrow> string \<Rightarrow> jsval" where
  "column r k = (case map_of r k of None \<Rightarrow> JNull | Some v \<Rightarrow> v)"

definition call_upsert :: "collaborators \<Rightarrow> jsobject \<Rightarrow> string option io" where
  "call_upsert c obj =
     io_bind (await_call (UpsertCall (JSON_body obj)) (upsert c (JSON_body obj))) (\<lambda>dbError.
       case dbError of
         Some m \<Rightarrow> io_return (Some m)
       | None \<Rightarrow> (\<lambda>w. (Inr None, w\<lparr>document_info := upsert_row (JSON_body obj) (document_info w)\<rparr>)))"

section \<open>\<open>processDocument\<close> (lib/api/document/process.ts)\<close>

text \<open>The three objects passed to \<open>logProcessing\<close> (lines 16, 68 and 86).\<close>

definition processing_entry :: "string \<Rightarrow> string \<Rightarrow> LogEntry" where
  "processing_entry documentId fileUrl =
     \<lparr>log_documentId = documentId, log_status = ''processing'',
      log_step = ''Starting document processing'',
      log_details = [(''fileUrl'', JString fileUrl)],
      log_errorMessage = None\<rparr>"

definition completed_entry :: "string \<Rightarrow> ExtractedInfo \<Rightarrow> string option \<Rightarrow> int \<Rightarrow> LogEntry" where
  "completed_entry documentId extractedInfo parsedDate processingTime =
     \<lparr>log_documentId = documentId, log_status = ''completed'',
      log_step = ''Document processing completed'',
      log_details =
        [(''processingTime'', JNumber (Finite (of_int processingTime))),
         (''documentInfo'', JObject
            ([(''vendorName'', string_or_undefined (vendorName extractedInfo)),
              (''invoiceNumber'', string_or_undefined (invoiceNumber extractedInfo)),
              (''invoiceDate'', string_or_undefined (invoiceDate extractedInfo)),
              (''totalAmount'', number_or_undefined (totalAmount extractedInfo))]
             @ otherProperties extractedInfo
             @ [(''invoice_date'', string_or_null parsedDate)]))],
      log_errorMessage = None\<rparr>"

definition error_entry :: "string \<Rightarrow> thrown \<Rightarrow> int \<Rightarrow> LogEntry" where
  "error_entry documentId err processingTime =
     \<lparr>log_documentId = documentId, log_status = ''error'',
      log_step = ''Document processing failed'',
      log_details =
        [(''error'', string_or_undefined (message err)),
         (''processingTime'', JNumber (Finite (of_int processingTime)))],
      log_errorMessage = message err\<rparr>"

text \<open>The two objects passed to \<open>upsert\<close> (lines 48 and 100).\<close>

definition completed_row ::
    "string \<Rightarrow> string \<Rightarrow> ExtractedInfo \<Rightarrow> string option \<Rightarrow> string \<Rightarrow> string \<Rightarrow> jsobject" where
  "completed_row documentId fileUrl extractedInfo parsedDate processed_at updated_at =
     [(''document_id'', JString documentId),
      (''vendor_name'', string_or_undefined (vendorName extractedInfo)),
      (''invoice_number'', string_or_undefined (invoiceNumber extractedInfo)),
      (''invoice_date'', string_or_null parsedDate),
      (''total_amount'', number_or_undefined (totalAmount extractedInfo)),
      (''processing_status'', JString ''completed''),
      (''processed_at'', JString processed_at),
      (''updated_at'', JString updated_at),
      (''file_url'', JString fileUrl)]"

definition error_row :: "string \<Rightarrow> thrown \<Rightarrow> string \<Rightarrow> jsobject" where
  "error_row documentId err updated_at =
     [(''document_id'', JString documentId),
      (''processing_status'', JString ''error''),
      (''error_message'', string_or_undefined (message err)),
      (''updated_at'', JString updated_at)]"

text \<open>
  Line 40: \<open>extractedInfo.invoiceDate ? parseDate(extractedInfo.invoiceDate) : null\<close>.
\<close>

definition parsed_date :: "collaborators \<Rightarrow> ExtractedInfo \<Rightarrow> string option" where
  "parsed_date c extractedInfo =
     (case invoiceDate extractedInfo of
        None \<Rightarrow> None
      | Some s \<Rightarrow> if s \<noteq> [] then parseDate c s else None)"

text \<open>The \<open>try\<close> block, lines 11 to 81.\<close>

definition processDocument_try :: "collaborators \<Rightarrow> string \<Rightarrow> string \<Rightarrow> int \<Rightarrow> ProcessingResult io" where
  "processDocument_try c documentId fileUrl startTime =
     io_bind (if documentId = [] then io_throw (new_Error ''Invalid document ID'')
              else io_return ()) (\<lambda>_.
     io_bind (call_logProcessing c (processing_entry documentId fileUrl)) (\<lambda>_.
     io_bind (call_getPublicUrl c fileUrl) (\<lambda>url.
     io_bind (if urlError url \<noteq> None then io_throw (new_Error ''Failed to get document URL'')
              else io_return ()) (\<lambda>_.
     io_bind (call_extractDocumentInfo c (publicUrl url)) (\<lambda>extracted.
     case extracted of
       None \<Rightarrow> io_throw (new_Error ''Failed to extract document information'')
     | Some extractedInfo \<Rightarrow>
     io_bind (case invoiceDate extractedInfo of
                None \<Rightarrow> io_return ()
              | Some s \<Rightarrow>
                  if s \<noteq> [] \<and> \<not> truthy_string (parsed_date c extractedInfo)
                  then io_throw (new_Error (''Invalid date format: '' @ s))
                  else io_return ()) (\<lambda>_.
     io_bind (new_Date_toISOString c) (\<lambda>processed_at.
     io_bind (new_Date_toISOString c) (\<lambda>updated_at.
     io_bind (call_upsert c
                (completed_row documentId fileUrl extractedInfo (parsed_date c extractedInfo)
                   processed_at updated_at)) (\<lambda>dbError.
     io_bind (case dbError of
                Some m \<Rightarrow> io_throw (new_Error (''Failed to save document information: '' @ m))
              | None \<Rightarrow> io_return ()) (\<lambda>_.
     io_bind (read_clock c) (\<lambda>now.
     io_bind (call_logProcessing c
                (completed_entry documentId extractedInfo (parsed_date c extractedInfo)
                   (now - startTime))) (\<lambda>_.
     io_return \<lparr>success = True, error = None\<rparr>))))))))))))"

text \<open>
  The \<open>catch\<close> block, lines 82 to 114. The response of the upsert is not read.
  \<open>console.error\<close> has no effect on the result or on the world.
\<close>

definition processDocument_catch :: "collaborators \<Rightarrow> string \<Rightarrow> int \<Rightarrow> thrown \<Rightarrow> ProcessingResult io" where
  "processDocument_catch c documentId startTime err =
     io_bind (read_clock c) (\<lambda>now.
     io_bind (call_logProcessing c (error_entry documentId err (now - startTime))) (\<lambda>_.
     io_bind (new_Date_toISOString c) (\<lambda>updated_at.
     io_bind (call_upsert c (error_row documentId err updated_at)) (\<lambda>_.
     io_return \<lparr>success = False,
        error = Some (or_else (message err) ''Failed to process document'')\<rparr>))))"

definition processDocument :: "collaborators \<Rightarrow> string \<Rightarrow> string \<Rightarrow> ProcessingResult io" where
  "processDocument c documentId fileUrl =
     io_bind (read_clock c) (\<lambda>startTime.
       io_catch (processDocument_try c documentId fileUrl startTime)
                (processDocument_catch c documentId startTime))"

section \<open>\<open>getDocumentPageCount\<close> (utils/pdf/pageCount.ts)\<close>

text \<open>
  \<open>parseInt(string)\<close> with no radix: leading white space is skipped, then an optional
  sign, then the prefix \<open>0x\<close> or \<open>0X\<close> selects radix 16 (radix 10 otherwise), and the
  longest run of digits of that radix is read; no digit at all gives \<open>NaN\<close>. White space
  beyond ASCII is outside the model.
\<close>

definition is_space :: "char \<Rightarrow> bool" where
  "is_space ch = (ch \<in> set [CHR 0x09, CHR 0x0A, CHR 0x0B, CHR 0x0C, CHR 0x0D, CHR 0x20])"

definition digit_of :: "char \<Rightarrow> nat option" where
  "digit_of = map_of
     [(CHR ''0'', 0), (CHR ''1'', 1), (CHR ''2'', 2), (CHR ''3'', 3), (CHR ''4'', 4),
      (CHR ''5'', 5), (CHR ''6'', 6), (CHR ''7'', 7), (CHR ''8'', 8), (CHR ''9'', 9),
      (CHR ''a'', 10), (CHR ''b'', 11), (CHR ''c'', 12), (CHR ''d'', 13), (CHR ''e'', 14),
      (CHR ''f'', 15), (CHR ''A'', 10), (CHR ''B'', 11), (CHR ''C'', 12), (CHR ''D'', 13),
      (CHR ''E'', 14), (CHR ''F'', 15)]"

definition is_digit :: "nat \<Rightarrow> char \<Rightarrow> bool" where
  "is_digit radix ch = (case digit_of ch of None \<Rightarrow> False | Some d \<Rightarrow> d < radix)"

definition digits_value :: "nat \<Rightarrow> string \<Rightarrow> nat" where
  "digits_value radix z =
     foldl (\<lambda>acc ch. acc * radix + (case digit_of ch of None \<Rightarrow> 0 | Some d \<Rightarrow> d)) 0 z"

definition parseInt :: "string \<Rightarrow> number" where
  "parseInt input =
     (let s1 = dropWhile is_space input;
          negative = (take 1 s1 = ''-'');
          s2 = (if take 1 s1 = ''-'' \<or> take 1 s1 = ''+'' then drop 1 s1 else s1);
          hex = (take 2 s2 = ''0x'' \<or> take 2 s2 = ''0X'');
          radix = (if hex then 16 else 10);
          s3 = (if hex then drop 2 s2 else s2);
          z = takeWhile (is_digit radix) s3
      in if z = [] then NaN
         else Finite ((if negative then - 1 else 1) * of_nat (digits_value radix z)))"

fun Math_ceil :: "number \<Rightarrow> number" where
  "Math_ceil NaN = NaN"
| "Math_ceil (Finite q) = Finite (of_int \<lceil>q\<rceil>)"

fun Math_max :: "number \<Rightarrow> number \<Rightarrow> number" where
  "Math_max (Finite a) (Finite b) = Finite (max a b)"
| "Math_max _ _ = NaN"

text \<open>\<open>x / k\<close> for a constant \<open>k\<close> that is not zero.\<close>

fun divide_by :: "number \<Rightarrow> rat \<Rightarrow> number" where
  "divide_by NaN k = NaN"
| "divide_by (Finite q) k = Finite (q / k)"

text \<open>
  \<open>select('page_count').eq('document_id', documentId).maybeSingle()\<close>: the response
  \<open>{ data, error }\<close>. With no error, \<open>data\<close> is the one matching row (\<open>null\<close> when
  there is none); more than one matching row is an error of \<open>maybeSingle\<close>.
\<close>

record SelectResponse =
  docInfo :: "jsobject option"
  selectError :: "string option"

definition call_select_page_count :: "collaborators \<Rightarrow> string \<Rightarrow> SelectResponse io" where
  "call_select_page_count c documentId =
     io_bind (await_call (SelectCall documentId) (select_page_count c documentId)) (\<lambda>err w.
       case err of
         Some m \<Rightarrow> (Inr \<lparr>docInfo = None, selectError = Some m\<rparr>, w)
       | None \<Rightarrow>
           (case rows_for documentId w of
              [] \<Rightarrow> (Inr \<lparr>docInfo = None, selectError = None\<rparr>, w)
            | [r] \<Rightarrow> (Inr \<lparr>docInfo = Some [(''page_count'', column r ''page_count'')],
                            selectError = None\<rparr>, w)
            | _ \<Rightarrow> (Inr \<lparr>docInfo = None,
                          selectError = Some ''JSON object requested, multiple (or no) rows returned''\<rparr>, w)))"

text \<open>\<open>docInfo?.page_count\<close>\<close>

definition page_count_of :: "jsobject option \<Rightarrow> jsval" where
  "page_count_of d =
     (case d of
        None \<Rightarrow> JUndefined
      | Some r \<Rightarrow> (case map_of r ''page_count'' of None \<Rightarrow> JUndefined | Some v \<Rightarrow> v))"

definition call_fetch_head :: "collaborators \<Rightarrow> string \<Rightarrow> HeadResponse io" where
  "call_fetch_head c url = await_call (FetchHeadCall url) (fetch_head c url)"

text \<open>The object passed to \<open>upsert\<close> (line 32).\<close>

definition page_count_row :: "string \<Rightarrow> number \<Rightarrow> string \<Rightarrow> jsobject" where
  "page_count_row documentId estimatedPages updated_at =
     [(''document_id'', JString documentId),
      (''page_count'', JNumber estimatedPages),
      (''updated_at'', JString updated_at)]"

text \<open>Line 27: \<open>Math.max(1, Math.ceil(contentLength / (100 * 1024)))\<close>.\<close>

definition estimated_pages :: "number \<Rightarrow> number" where
  "estimated_pages contentLength =
     Math_max (Finite 1) (Math_ceil (divide_by contentLength (100 * 1024)))"

text \<open>The \<open>try\<close> block, lines 5 to 41.\<close>

definition getDocumentPageCount_try :: "collaborators \<Rightarrow> string \<Rightarrow> string \<Rightarrow> jsval io" where
  "getDocumentPageCount_try c documentId fileUrl =
     io_bind (call_select_page_count c documentId) (\<lambda>sel.
     if selectError sel = None \<and> truthy (page_count_of (docInfo sel))
     then io_return (page_count_of (docInfo sel))
     else
     io_bind (call_getPublicUrl c fileUrl) (\<lambda>url.
     io_bind (case urlError url of Some e \<Rightarrow> io_throw e | None \<Rightarrow> io_return ()) (\<lambda>_.
     io_bind (call_fetch_head c (publicUrl url)) (\<lambda>response.
     io_bind (if \<not> ok response then io_throw (new_Error ''Failed to fetch document info'')
              else io_return ()) (\<lambda>_.
     (let contentLength = parseInt (or_else (content_length response) ''0'');
          estimatedPages = estimated_pages contentLength
      in
     io_bind (new_Date_toISOString c) (\<lambda>updated_at.
     io_bind (call_upsert c (page_count_row documentId estimatedPages updated_at)) (\<lambda>_.
     io_return (JNumber estimatedPages)))))))))"

text \<open>The \<open>catch\<close> block returns 1 whatever was thrown.\<close>

definition getDocumentPageCount :: "collaborators \<Rightarrow> string \<Rightarrow> string \<Rightarrow> jsval io" where
  "getDocumentPageCount c documentId fileUrl =
     io_catch (getDocumentPageCount_try c documentId fileUrl) (\<lambda>err. io_return (JNumber (Finite 1)))"

section \<open>Properties of the table and of call traces\<close>

text \<open>The unique index on \<open>document_id\<close> that \<open>onConflict: 'document_id'\<close> relies on.\<close>

definition unique_document_id :: "jsobject list \<Rightarrow> bool" where
  "unique_document_id table = distinct (map key_of table)"

text \<open>
  \<open>appends m P\<close>: whatever the outcome, running \<open>m\<close> only adds calls to the trace, and
  every call it adds satisfies \<open>P\<close>.
\<close>

definition appends :: "'a io \<Rightarrow> (call \<Rightarrow> bool) \<Rightarrow> bool" where
  "appends m P = (\<forall>w. \<exists>cs. calls (snd (m w)) = calls w @ cs \<and> list_all P cs)"

text \<open>The calls made between world \<open>w\<close> and the later world \<open>w'\<close>.\<close>

definition calls_since :: "world \<Rightarrow> world \<Rightarrow> call list" where
  "calls_since w w' = drop (length (calls w)) (calls w')"

text \<open>
  The two collaborator calls of the \<open>catch\<close> block of \<open>processDocument\<close> do not throw:
  the logging call for an \<open>error\<close> entry returns, and the upsert of a row whose status
  is \<open>error\<close> answers (accepting or refusing the row).
\<close>

definition error_path_returns :: "collaborators \<Rightarrow> bool" where
  "error_path_returns c =
     ((\<forall>entry. log_status entry = ''error'' \<longrightarrow> logProcessing c entry = Returns ()) \<and>
      (\<forall>row t. map_of row ''processing_status'' = Some (JString ''error'')
          \<longrightarrow> upsert c row \<noteq> Throws t))"

section \<open>Concrete collaborators\<close>

text \<open>Collaborators that all succeed: an invoice dated 2024-01-31, a file of 250000 bytes.\<close>

definition invoice_info :: ExtractedInfo where
  "invoice_info =
     \<lparr>vendorName = Some ''ACME'', invoiceNumber = Some ''INV-1'',
      invoiceDate = Some ''31/01/2024'', totalAmount = Some (Finite 100),
      otherProperties = []\<rparr>"

definition c_ok :: collaborators where
  "c_ok =
     \<lparr>logProcessing = (\<lambda>entry. Returns ()),
      getPublicUrl = (\<lambda>path. Returns \<lparr>publicUrl = ''https://storage/'' @ path, urlError = None\<rparr>),
      extractDocumentInfo = (\<lambda>url. Returns (Some invoice_info)),
      parseDate = (\<lambda>s. if s = ''31/01/2024'' then Some ''2024-01-31'' else None),
      upsert = (\<lambda>row. Returns None),
      select_page_count = (\<lambda>documentId. Returns None),
      fetch_head = (\<lambda>url. Returns \<lparr>ok = True, content_length = Some ''250000''\<rparr>),
      Date_now = (\<lambda>n. 1000 + int n),
      toISOString = (\<lambda>t. if t = 1001 then ''T1'' else if t = 1002 then ''T2'' else ''T'')\<rparr>"

definition w0 :: world where
  "w0 = \<lparr>document_info = [], calls = [], clock_reads = 0\<rparr>"

definition w1 :: world where
  "w1 = snd (processDocument c_ok ''doc1'' ''a.pdf'' w0)"

text \<open>The extraction service returns no data.\<close>

definition c_no_data :: collaborators where
  "c_no_data = c_ok\<lparr>extractDocumentInfo := (\<lambda>url. Returns None)\<rparr>"


text \<open>The extraction service returns no data and the database refuses every upsert.\<close>

definition c_no_data_db_down :: collaborators where
  "c_no_data_db_down = c_no_data\<lparr>upsert := (\<lambda>row. Returns (Some ''connection refused''))\<rparr>"


text \<open>The extracted date is not a date.\<close>

definition c_bad_date :: collaborators where
  "c_bad_date =
     c_ok\<lparr>extractDocumentInfo := (\<lambda>url. Returns (Some
        (invoice_info\<lparr>invoiceDate := Some ''not-a-date''\<rparr>)))\<rparr>"

definition c_bad_date_log_down :: collaborators where
  "c_bad_date_log_down =
     c_bad_date\<lparr>logProcessing := (\<lambda>entry.
        if log_status entry = ''error'' then Throws (new_Error ''log store unavailable'')
        else Returns ())\<rparr>"

text \<open>The \<open>HEAD\<close> probe answers with a \<open>content-length\<close> that is not a number.\<close>

definition c_nan :: collaborators where
  "c_nan = c_ok\<lparr>fetch_head := (\<lambda>url. Returns \<lparr>ok = True, content_length = Some ''abc''\<rparr>)\<rparr>"

section \<open>The steps of a run\<close>

lemmas io_defs = io_bind_def io_catch_def io_return_def io_throw_def await_call_def
  read_clock_def new_Date_toISOString_def call_logProcessing_def call_getPublicUrl_def
  call_extractDocumentInfo_def call_upsert_def

lemma io_bind_InrE:
  assumes "io_bind m f w = (Inr x, w')"
  obtains y w1 where "m w = (Inr y, w1)" and "f y w1 = (Inr x, w')"
  using assms by (auto simp add: io_bind_def split: prod.splits sum.splits)

lemma await_call_Inr:
  "await_call k out w = (Inr x, w') \<longleftrightarrow> out = Returns x \<and> w' = w\<lparr>calls := calls w @ [k]\<rparr>"
  by (auto simp add: await_call_def split: outcome.splits)

lemma read_clock_eq:
  "read_clock c w = (r, w') \<longleftrightarrow>
     r = Inr (Date_now c (clock_reads w)) \<and> w' = w\<lparr>clock_reads := Suc (clock_reads w)\<rparr>"
  by (auto simp add: read_clock_def)

lemma new_Date_toISOString_eq:
  "new_Date_toISOString c w = (r, w') \<longleftrightarrow>
     r = Inr (toISOString c (Date_now c (clock_reads w)))
     \<and> w' = w\<lparr>clock_reads := Suc (clock_reads w)\<rparr>"
  by (auto simp add: new_Date_toISOString_def read_clock_def io_bind_def io_return_def)

lemma call_upsert_Inr:
  "call_upsert c obj w = (Inr dbError, w') \<longleftrightarrow>
     upsert c (JSON_body obj) = Returns dbError \<and>
     w' = (if dbError = None
           then w\<lparr>calls := calls w @ [UpsertCall (JSON_body obj)],
                  document_info := upsert_row (JSON_body obj) (document_info w)\<rparr>
           else w\<lparr>calls := calls w @ [UpsertCall (JSON_body obj)]\<rparr>)"
  by (cases "upsert c (JSON_body obj)"; cases dbError)
     (auto simp add: call_upsert_def io_bind_def io_return_def await_call_def split: option.splits)

lemma guard_Inr:
  "(if b then io_throw e else io_return ()) w = (Inr x, w') \<longleftrightarrow> \<not> b \<and> w' = w"
  by (auto simp add: io_throw_def io_return_def)


section \<open>The table under \<open>upsert\<close>\<close>

lemma map_of_merge_row:
  "map_of new col = Some v \<Longrightarrow> map_of (merge_row r new) col = Some v"
  by (simp add: merge_row_def)

lemma map_of_filter_other:
  "col \<notin> set (map fst new) \<Longrightarrow>
     map_of (filter (\<lambda>(k, v). k \<notin> set (map fst new)) r) col = map_of r col"
  by (induction r) force+

lemma key_of_merge_row:
  assumes "key_of r = key_of new"
  shows "key_of (merge_row r new) = key_of new"
proof (cases "map_of new ''document_id''")
  case None
  then have "''document_id'' \<notin> set (map fst new)"
    by (simp add: map_of_eq_None_iff)
  then have "map_of (filter (\<lambda>(k, v). k \<notin> set (map fst new)) r) ''document_id''
               = map_of r ''document_id''"
    by (rule map_of_filter_other)
  with None assms show ?thesis
    by (simp add: key_of_def merge_row_def)
next
  case (Some v)
  then show ?thesis
    by (simp add: key_of_def map_of_merge_row)
qed

lemma map_key_of_upsert_row:
  "map key_of (upsert_row new table) =
     (if list_ex (\<lambda>r. key_of r = key_of new) table then map key_of table
      else map key_of table @ [key_of new])"
  by (auto simp add: upsert_row_def key_of_merge_row)

lemma unique_document_id_upsert_row:
  "unique_document_id table \<Longrightarrow> unique_document_id (upsert_row new table)"
  by (auto simp add: unique_document_id_def map_key_of_upsert_row list_ex_iff)

lemma filter_key_merge:
  "filter (\<lambda>r. key_of r = key_of new)
      (map (\<lambda>r. if key_of r = key_of new then merge_row r new else r) table) =
   map (\<lambda>r. merge_row r new) (filter (\<lambda>r. key_of r = key_of new) table)"
  by (induction table) (auto simp add: key_of_merge_row)

lemma unique_filter_le_1:
  "distinct (map f xs) \<Longrightarrow> length (filter (\<lambda>x. f x = a) xs) \<le> 1"
proof (induction xs)
  case Nil
  then show ?case by simp
next
  case (Cons x xs)
  show ?case
  proof (cases "f x = a")
    case True
    from Cons.prems have "f x \<notin> f ` set xs"
      by simp
    with True have "\<forall>y \<in> set xs. f y \<noteq> a"
      by (metis imageI)
    then have "filter (\<lambda>x. f x = a) xs = []"
      by (simp add: filter_empty_conv)
    with True show ?thesis by simp
  next
    case False
    with Cons show ?thesis by simp
  qed
qed

lemma rows_after_upsert:
  assumes "unique_document_id table"
  shows "\<exists>row. filter (\<lambda>r. key_of r = key_of new) (upsert_row new table) = [row]
      \<and> (\<forall>col v. map_of new col = Some v \<longrightarrow> map_of row col = Some v)"
proof (cases "list_ex (\<lambda>r. key_of r = key_of new) table")
  case True
  then have "filter (\<lambda>r. key_of r = key_of new) table \<noteq> []"
    by (simp add: list_ex_iff filter_empty_conv)
  moreover have "length (filter (\<lambda>r. key_of r = key_of new) table) \<le> 1"
    using assms unfolding unique_document_id_def by (rule unique_filter_le_1)
  ultimately obtain r where r: "filter (\<lambda>r. key_of r = key_of new) table = [r]"
    by (cases "filter (\<lambda>r. key_of r = key_of new) table") (auto simp add: le_Suc_eq)
  have "filter (\<lambda>r. key_of r = key_of new) (upsert_row new table) = [merge_row r new]"
    using True r by (simp add: upsert_row_def filter_key_merge)
  then show ?thesis
    by (simp add: map_of_merge_row)
next
  case False
  then have "filter (\<lambda>r. key_of r = key_of new) table = []"
    by (simp add: list_ex_iff filter_empty_conv)
  with False have "filter (\<lambda>r. key_of r = key_of new) (upsert_row new table) = [new]"
    by (simp add: upsert_row_def)
  then show ?thesis by simp
qed

lemma length_upsert_row:
  "length (upsert_row new table) =
     (if list_ex (\<lambda>r. key_of r = key_of new) table then length table else Suc (length table))"
  by (simp add: upsert_row_def)

lemma map_of_JSON_body:
  "distinct (map fst obj) \<Longrightarrow>
     map_of (JSON_body obj) col =
       (case map_of obj col of
          None \<Rightarrow> None
        | Some v \<Rightarrow> if is_undefined v then None else Some (json_value v))"
proof (induction obj)
  case Nil
  then show ?case by (simp add: JSON_body_def)
next
  case (Cons kv obj)
  obtain k v where kv: "kv = (k, v)" by (cases kv)
  from Cons.prems kv have "map_of obj k = None"
    by (simp add: map_of_eq_None_iff)
  with Cons kv show ?case
    by (auto simp add: JSON_body_def split: option.splits)
qed

section \<open>Document processing\<close>

lemma catch_Inr:
  assumes "processDocument_catch c d t0 err w = (Inr r, w')"
  shows "r = \<lparr>success = False, error = Some (or_else (message err) ''Failed to process document'')\<rparr>"
  using assms unfolding processDocument_catch_def
  by (auto elim!: io_bind_InrE simp add: io_return_def)

lemma try_Inr:
  assumes "processDocument_try c d f t0 w = (Inr r, w')"
  shows "r = \<lparr>success = True, error = None\<rparr> \<and> d \<noteq> [] \<and>
     clock_reads w' = clock_reads w + 3 \<and>
     (\<exists>url info. getPublicUrl c f = Returns url \<and> urlError url = None \<and>
        extractDocumentInfo c (publicUrl url) = Returns (Some info) \<and>
        document_info w' = upsert_row (JSON_body (completed_row d f info (parsed_date c info)
            (toISOString c (Date_now c (clock_reads w)))
            (toISOString c (Date_now c (Suc (clock_reads w)))))) (document_info w))"
  using assms unfolding processDocument_try_def
  by (auto elim!: io_bind_InrE simp add: guard_Inr call_logProcessing_def call_getPublicUrl_def
      call_extractDocumentInfo_def await_call_Inr read_clock_eq new_Date_toISOString_eq
      call_upsert_Inr io_return_def io_throw_def
      split: option.splits if_splits)

lemma processDocument_unfold:
  "processDocument c d f w =
     (case processDocument_try c d f (Date_now c (clock_reads w))
             (w\<lparr>clock_reads := Suc (clock_reads w)\<rparr>) of
        (Inl e, w') \<Rightarrow> processDocument_catch c d (Date_now c (clock_reads w)) e w'
      | (Inr x, w') \<Rightarrow> (Inr x, w'))"
  by (simp add: processDocument_def io_bind_def io_catch_def read_clock_def)

lemma processDocument_success_effect:
  assumes "fst (processDocument c d f w) = Inr r" and "success r"
  shows "r = \<lparr>success = True, error = None\<rparr> \<and> d \<noteq> [] \<and>
     clock_reads (snd (processDocument c d f w)) = clock_reads w + 4 \<and>
     (\<exists>url info. getPublicUrl c f = Returns url \<and> urlError url = None \<and>
        extractDocumentInfo c (publicUrl url) = Returns (Some info) \<and>
        document_info (snd (processDocument c d f w)) =
          upsert_row (JSON_body (completed_row d f info (parsed_date c info)
            (toISOString c (Date_now c (Suc (clock_reads w))))
            (toISOString c (Date_now c (Suc (Suc (clock_reads w))))))) (document_info w))"
proof (cases "processDocument_try c d f (Date_now c (clock_reads w))
                (w\<lparr>clock_reads := Suc (clock_reads w)\<rparr>)")
  case (Pair res w')
  show ?thesis
  proof (cases res)
    case (Inl e)
    with Pair assms(1) have "fst (processDocument_catch c d (Date_now c (clock_reads w)) e w') = Inr r"
      by (simp add: processDocument_unfold)
    then have "\<not> success r"
      using catch_Inr [of c d "Date_now c (clock_reads w)" e w' r]
      by (cases "processDocument_catch c d (Date_now c (clock_reads w)) e w'") simp
    with assms(2) show ?thesis by simp
  next
    case (Inr x)
    with Pair assms(1) have run: "processDocument c d f w = (Inr r, w')" and "x = r"
      by (simp_all add: processDocument_unfold)
    with Pair Inr have "processDocument_try c d f (Date_now c (clock_reads w))
        (w\<lparr>clock_reads := Suc (clock_reads w)\<rparr>) = (Inr r, w')"
      by simp
    from try_Inr [OF this] run show ?thesis
      by simp
  qed
qed


lemma map_of_completed_body:
  "map_of (JSON_body (completed_row d f info pd a b)) col =
     (case map_of (completed_row d f info pd a b) col of
        None \<Rightarrow> None
      | Some v \<Rightarrow> if is_undefined v then None else Some (json_value v))"
  by (rule map_of_JSON_body) (simp add: completed_row_def)

lemma key_of_completed_body:
  "key_of (JSON_body (completed_row d f info pd a b)) = Some (JString d)"
  by (simp add: key_of_def map_of_completed_body) (simp add: completed_row_def)

lemma completed_body_columns:
  "map_of (JSON_body (completed_row d f info pd a b)) ''processing_status'' = Some (JString ''completed'')"
  "map_of (JSON_body (completed_row d f info pd a b)) ''invoice_date'' = Some (string_or_null pd)"
  "map_of (JSON_body (completed_row d f info pd a b)) ''processed_at'' = Some (JString a)"
  "map_of (JSON_body (completed_row d f info pd a b)) ''updated_at'' = Some (JString b)"
  "map_of (JSON_body (completed_row d f info pd a b)) ''file_url'' = Some (JString f)"
  "vendorName info = Some v \<Longrightarrow>
     map_of (JSON_body (completed_row d f info pd a b)) ''vendor_name'' = Some (JString v)"
  "invoiceNumber info = Some v \<Longrightarrow>
     map_of (JSON_body (completed_row d f info pd a b)) ''invoice_number'' = Some (JString v)"
  "totalAmount info = Some n \<Longrightarrow>
     map_of (JSON_body (completed_row d f info pd a b)) ''total_amount'' = Some (json_value (JNumber n))"
  by (simp_all add: map_of_completed_body) (cases pd; simp add: completed_row_def)+

lemma processDocument_success_run:
  assumes "documentId \<noteq> []"
    and "\<forall>entry. logProcessing c entry = Returns ()"
    and "getPublicUrl c fileUrl = Returns url" and "urlError url = None"
    and "extractDocumentInfo c (publicUrl url) = Returns (Some info)"
    and "truthy_string (invoiceDate info) \<longrightarrow> truthy_string (parsed_date c info)"
    and "\<forall>row. upsert c row = Returns None"
  shows "fst (processDocument c documentId fileUrl w) = Inr \<lparr>success = True, error = None\<rparr>"
  using assms
  by (cases "invoiceDate info")
     (auto simp add: processDocument_unfold processDocument_try_def io_defs)


lemma c_ok_run:
  "processDocument c_ok ''doc1'' ''a.pdf'' w0 =
     (Inr \<lparr>success = True, error = None\<rparr>,
      \<lparr>document_info =
         [[(''document_id'', JString ''doc1''), (''vendor_name'', JString ''ACME''),
           (''invoice_number'', JString ''INV-1''), (''invoice_date'', JString ''2024-01-31''),
           (''total_amount'', JNumber (Finite 100)), (''processing_status'', JString ''completed''),
           (''processed_at'', JString ''T1''), (''updated_at'', JString ''T2''),
           (''file_url'', JString ''a.pdf'')]],
       calls =
         [LogCall (processing_entry ''doc1'' ''a.pdf''), GetPublicUrlCall ''a.pdf'',
          ExtractCall ''https://storage/a.pdf'',
          UpsertCall
            [(''document_id'', JString ''doc1''), (''vendor_name'', JString ''ACME''),
             (''invoice_number'', JString ''INV-1''), (''invoice_date'', JString ''2024-01-31''),
             (''total_amount'', JNumber (Finite 100)), (''processing_status'', JString ''completed''),
             (''processed_at'', JString ''T1''), (''updated_at'', JString ''T2''),
             (''file_url'', JString ''a.pdf'')],
          LogCall (completed_entry ''doc1'' invoice_info (Some ''2024-01-31'') 3)],
       clock_reads = 4\<rparr>)"
  by (simp add: processDocument_unfold processDocument_try_def io_defs c_ok_def invoice_info_def w0_def
      parsed_date_def completed_row_def JSON_body_def upsert_row_def)

text \<open>
  C1. For a non-empty document identifier, when every logging call returns, the URL
  resolves without error, the extraction returns a record, its date (when present and
  non-empty) is normalised to a non-empty string, and every upsert is accepted, then
  \<open>processDocument\<close> returns \<open>{success: true}\<close> and the table (which has the unique index
  on \<open>document_id\<close>) holds exactly one row for the identifier: its status is
  \<open>completed\<close>, its date is the normalised date, and it holds every field the
  extraction returned.
\<close>

theorem processDocument_success:
  assumes "documentId \<noteq> []"
    and "\<forall>entry. logProcessing c entry = Returns ()"
    and "getPublicUrl c fileUrl = Returns url" and "urlError url = None"
    and "extractDocumentInfo c (publicUrl url) = Returns (Some info)"
    and "truthy_string (invoiceDate info) \<longrightarrow> truthy_string (parsed_date c info)"
    and "\<forall>row. upsert c row = Returns None"
    and "unique_document_id (document_info w)"
  shows "fst (processDocument c documentId fileUrl w) = Inr \<lparr>success = True, error = None\<rparr> \<and>
     (\<exists>row. rows_for documentId (snd (processDocument c documentId fileUrl w)) = [row] \<and>
        column row ''processing_status'' = JString ''completed'' \<and>
        column row ''invoice_date'' = string_or_null (parsed_date c info) \<and>
        (\<forall>v. vendorName info = Some v \<longrightarrow> column row ''vendor_name'' = JString v) \<and>
        (\<forall>v. invoiceNumber info = Some v \<longrightarrow> column row ''invoice_number'' = JString v) \<and>
        (\<forall>n. totalAmount info = Some n \<longrightarrow> column row ''total_amount'' = json_value (JNumber n)))"
proof -
  let ?run = "processDocument c documentId fileUrl w"
  have res: "fst ?run = Inr \<lparr>success = True, error = None\<rparr>"
    using assms(1-7) by (rule processDocument_success_run)
  from processDocument_success_effect [OF res] assms(3,5)
  obtain a b where table: "document_info (snd ?run) =
      upsert_row (JSON_body (completed_row documentId fileUrl info (parsed_date c info) a b))
        (document_info w)"
    by auto
  let ?body = "JSON_body (completed_row documentId fileUrl info (parsed_date c info) a b)"
  from rows_after_upsert [OF assms(8), of ?body]
  obtain row where row: "rows_for documentId (snd ?run) = [row]"
    and cols: "\<And>col v. map_of ?body col = Some v \<Longrightarrow> map_of row col = Some v"
    unfolding rows_for_def table key_of_completed_body by blast
  have "column row ''processing_status'' = JString ''completed''"
    and "column row ''invoice_date'' = string_or_null (parsed_date c info)"
    and "\<And>v. vendorName info = Some v \<Longrightarrow> column row ''vendor_name'' = JString v"
    and "\<And>v. invoiceNumber info = Some v \<Longrightarrow> column row ''invoice_number'' = JString v"
    and "\<And>n. totalAmount info = Some n \<Longrightarrow> column row ''total_amount'' = json_value (JNumber n)"
    by (simp_all add: column_def cols completed_body_columns)
  with res row show ?thesis
    by simp
qed


theorem processDocument_success_witness:
  "fst (processDocument c_ok ''doc1'' ''a.pdf'' w0) = Inr \<lparr>success = True, error = None\<rparr> \<and>
   (\<exists>row. rows_for ''doc1'' (snd (processDocument c_ok ''doc1'' ''a.pdf'' w0)) = [row] \<and>
      column row ''processing_status'' = JString ''completed'' \<and>
      column row ''invoice_date'' = JString ''2024-01-31'' \<and>
      column row ''vendor_name'' = JString ''ACME'' \<and>
      column row ''invoice_number'' = JString ''INV-1'' \<and>
      column row ''total_amount'' = JNumber (Finite 100))"
proof -
  let ?url = "\<lparr>publicUrl = ''https://storage/a.pdf'', urlError = None\<rparr>"
  let ?info = "invoice_info"
  have 1: "''doc1'' \<noteq> []" by simp
  have 2: "\<forall>entry. logProcessing c_ok entry = Returns ()" by (simp add: c_ok_def invoice_info_def)
  have 3: "getPublicUrl c_ok ''a.pdf'' = Returns ?url" by (simp add: c_ok_def invoice_info_def)
  have 4: "urlError ?url = None" by simp
  have 5: "extractDocumentInfo c_ok (publicUrl ?url) = Returns (Some ?info)" by (simp add: c_ok_def invoice_info_def)
  have pd: "parsed_date c_ok ?info = Some ''2024-01-31''"
    by (simp add: parsed_date_def c_ok_def invoice_info_def)
  then have 6: "truthy_string (invoiceDate ?info) \<longrightarrow> truthy_string (parsed_date c_ok ?info)"
    by simp
  have 7: "\<forall>row. upsert c_ok row = Returns None" by (simp add: c_ok_def invoice_info_def)
  have 8: "unique_document_id (document_info w0)"
    by (simp add: unique_document_id_def w0_def)
  have fields: "vendorName invoice_info = Some ''ACME''"
    "invoiceNumber invoice_info = Some ''INV-1''"
    "totalAmount invoice_info = Some (Finite 100)"
    by (simp_all add: invoice_info_def)
  from processDocument_success [OF 1 2 3 4 5 6 7 8] show ?thesis
    by (simp add: pd fields)
qed


lemma table_after_success:
  assumes "fst (processDocument c d f w) = Inr r" and "success r"
  obtains url info where "getPublicUrl c f = Returns url"
    and "extractDocumentInfo c (publicUrl url) = Returns (Some info)"
    and "document_info (snd (processDocument c d f w)) =
          upsert_row (JSON_body (completed_row d f info (parsed_date c info)
            (toISOString c (Date_now c (Suc (clock_reads w))))
            (toISOString c (Date_now c (Suc (Suc (clock_reads w))))))) (document_info w)"
    and "clock_reads (snd (processDocument c d f w)) = clock_reads w + 4"
  using processDocument_success_effect [OF assms] by blast

lemma present_after_upsert:
  "list_ex (\<lambda>r. key_of r = key_of new) (upsert_row new table)"
proof -
  have iff: "list_ex (\<lambda>r. key_of r = key_of new) xs \<longleftrightarrow> key_of new \<in> set (map key_of xs)" for xs
    unfolding list_ex_iff set_map image_iff by metis
  have "key_of new \<in> set (map key_of (upsert_row new table))"
    unfolding map_key_of_upsert_row iff by simp
  then show ?thesis
    unfolding iff .
qed

lemma filter_keys_empty:
  "fst ` set b1 \<subseteq> fst ` set b2 \<Longrightarrow> filter (\<lambda>(k, v). k \<notin> fst ` set b2) b1 = []"
  by (force simp add: filter_empty_conv)

lemma merge_row_same_keys:
  "set (map fst b1) = set (map fst b2) \<Longrightarrow> merge_row b1 b2 = b2"
  by (simp add: merge_row_def filter_keys_empty)

lemma merge_row_twice:
  assumes "set (map fst b1) = set (map fst b2)"
  shows "merge_row (merge_row r b1) b2 = merge_row r b2"
proof -
  have "filter (\<lambda>(k, v). k \<notin> set (map fst b2)) (filter (\<lambda>(k, v). k \<notin> set (map fst b2)) r) =
      filter (\<lambda>(k, v). k \<notin> set (map fst b2)) r"
    by (induction r) auto
  then show ?thesis
    using assms by (simp add: merge_row_def filter_keys_empty)
qed

lemma upsert_row_twice:
  assumes "key_of b1 = key_of b2" and "set (map fst b1) = set (map fst b2)"
  shows "upsert_row b2 (upsert_row b1 table) = upsert_row b2 table"
proof -
  have present: "list_ex (\<lambda>r. key_of r = key_of b2) (upsert_row b1 table)"
    using present_after_upsert [of b1 table] assms(1) by simp
  show ?thesis
  proof (cases "list_ex (\<lambda>r. key_of r = key_of b2) table")
    case True
    have "(if key_of (if key_of r = key_of b2 then merge_row r b1 else r) = key_of b2
           then merge_row (if key_of r = key_of b2 then merge_row r b1 else r) b2
           else (if key_of r = key_of b2 then merge_row r b1 else r)) =
          (if key_of r = key_of b2 then merge_row r b2 else r)" for r
      using assms by (simp add: key_of_merge_row merge_row_twice)
    then have "map (\<lambda>r. if key_of r = key_of b2 then merge_row r b2 else r)
          (map (\<lambda>r. if key_of r = key_of b2 then merge_row r b1 else r) table) =
        map (\<lambda>r. if key_of r = key_of b2 then merge_row r b2 else r) table"
      by (simp add: comp_def)
    with True present show ?thesis
      unfolding upsert_row_def [of b2] by (simp add: upsert_row_def assms(1))
  next
    case False
    then have "map (\<lambda>r. if key_of r = key_of b2 then merge_row r b2 else r) table = table"
      by (induction table) auto
    moreover have "merge_row b1 b2 = b2"
      using assms(2) by (rule merge_row_same_keys)
    ultimately show ?thesis
      using False present unfolding upsert_row_def [of b2]
      by (simp add: upsert_row_def assms(1))
  qed
qed

lemma keys_completed_body:
  "map fst (JSON_body (completed_row d f info pd a b)) =
   map fst (JSON_body (completed_row d f info pd a' b'))"
  by (simp add: JSON_body_def completed_row_def)


text \<open>
  C7. Two calls in sequence with identical inputs (the same identifier, file and
  collaborators; only the clock moves on), both returning \<open>{success: true}\<close>: the
  table holds exactly one row for the identifier, and it has, in every column the
  second upsert request supplies, the value of that request; the second call adds no
  row; and the table is what the second request alone would have made of the table
  before the first call, so nothing written by the first call is left.
\<close>

theorem processDocument_twice:
  assumes "fst (processDocument c d f w) = Inr r1" and "success r1"
    and "fst (processDocument c d f (snd (processDocument c d f w))) = Inr r2" and "success r2"
    and "unique_document_id (document_info w)"
  shows "\<exists>url info row.
     getPublicUrl c f = Returns url \<and>
     extractDocumentInfo c (publicUrl url) = Returns (Some info) \<and>
     rows_for d (snd (processDocument c d f (snd (processDocument c d f w)))) = [row] \<and>
     (\<forall>col v.
        map_of (JSON_body (completed_row d f info (parsed_date c info)
           (toISOString c (Date_now c (clock_reads w + 5)))
           (toISOString c (Date_now c (clock_reads w + 6))))) col = Some v
        \<longrightarrow> map_of row col = Some v) \<and>
     length (document_info (snd (processDocument c d f (snd (processDocument c d f w))))) =
       length (document_info (snd (processDocument c d f w))) \<and>
     document_info (snd (processDocument c d f (snd (processDocument c d f w)))) =
       upsert_row (JSON_body (completed_row d f info (parsed_date c info)
           (toISOString c (Date_now c (clock_reads w + 5)))
           (toISOString c (Date_now c (clock_reads w + 6))))) (document_info w)"
proof -
  define w1 where "w1 = snd (processDocument c d f w)"
  define w2 where "w2 = snd (processDocument c d f w1)"
  from assms(1,2) obtain url1 info1 where
    url1: "getPublicUrl c f = Returns url1"
    and info1: "extractDocumentInfo c (publicUrl url1) = Returns (Some info1)"
    and t1: "document_info w1 = upsert_row (JSON_body (completed_row d f info1 (parsed_date c info1)
            (toISOString c (Date_now c (Suc (clock_reads w))))
            (toISOString c (Date_now c (Suc (Suc (clock_reads w))))))) (document_info w)"
    and clock: "clock_reads w1 = clock_reads w + 4"
    unfolding w1_def by (rule table_after_success)
  from assms(3,4) obtain url info where url: "getPublicUrl c f = Returns url"
    and info: "extractDocumentInfo c (publicUrl url) = Returns (Some info)"
    and t2': "document_info w2 =
      upsert_row (JSON_body (completed_row d f info (parsed_date c info)
          (toISOString c (Date_now c (Suc (clock_reads w1))))
          (toISOString c (Date_now c (Suc (Suc (clock_reads w1))))))) (document_info w1)"
    unfolding w2_def w1_def by (rule table_after_success)
  from url1 url info1 info have same: "info1 = info"
    by simp
  define body1 where "body1 = JSON_body (completed_row d f info (parsed_date c info)
          (toISOString c (Date_now c (Suc (clock_reads w))))
          (toISOString c (Date_now c (Suc (Suc (clock_reads w))))))"
  define body2 where "body2 = JSON_body (completed_row d f info (parsed_date c info)
          (toISOString c (Date_now c (clock_reads w + 5)))
          (toISOString c (Date_now c (clock_reads w + 6))))"
  have t1: "document_info w1 = upsert_row body1 (document_info w)"
    using t1 unfolding same body1_def .
  have "Suc (clock_reads w1) = clock_reads w + 5" and "Suc (Suc (clock_reads w1)) = clock_reads w + 6"
    using clock by simp_all
  with t2' have t2: "document_info w2 = upsert_row body2 (document_info w1)"
    unfolding body2_def by (simp only:)
  have k1: "key_of body1 = Some (JString d)"
    unfolding body1_def by (rule key_of_completed_body)
  have k2: "key_of body2 = Some (JString d)"
    unfolding body2_def by (rule key_of_completed_body)
  have keys: "set (map fst body1) = set (map fst body2)"
    unfolding body1_def body2_def by (rule arg_cong [where f = set]) (rule keys_completed_body)
  have u1: "unique_document_id (document_info w1)"
    unfolding t1 using assms(5) by (rule unique_document_id_upsert_row)
  have present: "list_ex (\<lambda>r. key_of r = Some (JString d)) (document_info w1)"
    unfolding t1 using present_after_upsert [of body1 "document_info w"]
    by (simp only: k1)
  have len: "length (document_info w2) = length (document_info w1)"
    using present unfolding t2 by (simp add: length_upsert_row k2)
  have only_second: "document_info w2 = upsert_row body2 (document_info w)"
    unfolding t2 t1 using k1 k2 keys by (simp add: upsert_row_twice)
  from rows_after_upsert [OF u1, of body2]
  obtain row where "rows_for d w2 = [row]"
    and "\<forall>col v. map_of body2 col = Some v \<longrightarrow> map_of row col = Some v"
    unfolding rows_for_def t2 k2 by blast
  with url info len only_second show ?thesis
    unfolding w2_def w1_def body2_def by blast
qed


theorem processDocument_twice_witness:
  "length (document_info (snd (processDocument c_ok ''doc1'' ''a.pdf'' w1))) = 1 \<and>
   (\<exists>row. rows_for ''doc1'' (snd (processDocument c_ok ''doc1'' ''a.pdf'' w1)) = [row] \<and>
      map_of row ''processing_status'' = Some (JString ''completed'') \<and>
      map_of row ''processed_at'' = Some (JString ''T''))"
proof -
  let ?ok = "\<lparr>success = True, error = None\<rparr>"
  let ?url = "\<lparr>publicUrl = ''https://storage/a.pdf'', urlError = None\<rparr>"
  have c: "''doc1'' \<noteq> []"
    "\<forall>entry. logProcessing c_ok entry = Returns ()"
    "getPublicUrl c_ok ''a.pdf'' = Returns ?url"
    "urlError ?url = None"
    "extractDocumentInfo c_ok (publicUrl ?url) = Returns (Some invoice_info)"
    "truthy_string (invoiceDate invoice_info) \<longrightarrow> truthy_string (parsed_date c_ok invoice_info)"
    "\<forall>row. upsert c_ok row = Returns None"
    by (simp_all add: c_ok_def invoice_info_def parsed_date_def)
  have 1: "fst (processDocument c_ok ''doc1'' ''a.pdf'' w0) = Inr ?ok"
    by (simp add: c_ok_run)
  have 2: "success ?ok"
    by simp
  have 3: "fst (processDocument c_ok ''doc1'' ''a.pdf'' (snd (processDocument c_ok ''doc1'' ''a.pdf'' w0)))
             = Inr ?ok"
    by (rule processDocument_success_run [OF c])
  have 4: "unique_document_id (document_info w0)"
    by (simp add: unique_document_id_def w0_def)
  have len: "length (document_info (snd (processDocument c_ok ''doc1'' ''a.pdf'' w0))) = 1"
    by (simp add: c_ok_run)
  from processDocument_twice [OF 1 2 3 2 4]
  obtain info row where
    "length (document_info (snd (processDocument c_ok ''doc1'' ''a.pdf'' w1))) =
       length (document_info (snd (processDocument c_ok ''doc1'' ''a.pdf'' w0)))"
    and row: "rows_for ''doc1'' (snd (processDocument c_ok ''doc1'' ''a.pdf'' w1)) = [row]"
    and cols: "\<And>col v. map_of (JSON_body (completed_row ''doc1'' ''a.pdf'' info (parsed_date c_ok info)
              (toISOString c_ok (Date_now c_ok (clock_reads w0 + 5)))
              (toISOString c_ok (Date_now c_ok (clock_reads w0 + 6))))) col = Some v
           \<Longrightarrow> map_of row col = Some v"
    unfolding w1_def by blast
  moreover have "map_of row ''processing_status'' = Some (JString ''completed'')"
    by (rule cols) (rule completed_body_columns)
  moreover have "map_of row ''processed_at'' =
      Some (JString (toISOString c_ok (Date_now c_ok (clock_reads w0 + 5))))"
    by (rule cols) (rule completed_body_columns)
  then have "map_of row ''processed_at'' = Some (JString ''T'')"
    by (simp add: c_ok_def w0_def)
  ultimately show ?thesis
    using len by simp
qed

section \<open>Failures of document processing\<close>

lemma map_of_error_body:
  "map_of (JSON_body (error_row d err ts)) col =
     (case map_of (error_row d err ts) col of
        None \<Rightarrow> None
      | Some v \<Rightarrow> if is_undefined v then None else Some (json_value v))"
  by (rule map_of_JSON_body) (simp add: error_row_def)

lemma error_body_columns:
  "map_of (JSON_body (error_row d err ts)) ''processing_status'' = Some (JString ''error'')"
  "map_of (JSON_body (error_row d err ts)) ''document_id'' = Some (JString d)"
  by (simp_all add: map_of_error_body) (simp_all add: error_row_def)

lemma key_of_error_body:
  "key_of (JSON_body (error_row d err ts)) = Some (JString d)"
  by (simp add: key_of_def error_body_columns)


lemma catch_run:
  assumes "error_path_returns c"
  shows "\<exists>dbError.
     upsert c (JSON_body (error_row d err (toISOString c (Date_now c (Suc (clock_reads w))))))
       = Returns dbError \<and>
     processDocument_catch c d t0 err w =
      (Inr \<lparr>success = False, error = Some (or_else (message err) ''Failed to process document'')\<rparr>,
       w\<lparr>clock_reads := clock_reads w + 2,
          calls := calls w @
            [LogCall (error_entry d err (Date_now c (clock_reads w) - t0)),
             UpsertCall (JSON_body (error_row d err (toISOString c (Date_now c (Suc (clock_reads w))))))],
          document_info :=
            (if dbError = None
             then upsert_row (JSON_body (error_row d err
                    (toISOString c (Date_now c (Suc (clock_reads w)))))) (document_info w)
             else document_info w)\<rparr>)"
proof -
  let ?entry = "error_entry d err (Date_now c (clock_reads w) - t0)"
  let ?body = "JSON_body (error_row d err (toISOString c (Date_now c (Suc (clock_reads w)))))"
  from assms have log: "logProcessing c ?entry = Returns ()"
    by (simp add: error_path_returns_def error_entry_def)
  from assms have "\<forall>t. upsert c ?body \<noteq> Throws t"
    by (simp add: error_path_returns_def error_body_columns)
  then obtain dbError where up: "upsert c ?body = Returns dbError"
    by (cases "upsert c ?body") auto
  show ?thesis
    using log up by (cases dbError) (simp_all add: processDocument_catch_def io_defs)
qed


lemma calls_since_append [simp]:
  "calls w' = calls w @ cs \<Longrightarrow> calls_since w w' = cs"
  by (simp add: calls_since_def)


lemma c_no_data_run:
  "fst (processDocument c_no_data ''doc1'' ''a.pdf'' w0) =
     Inr \<lparr>success = False, error = Some ''Failed to extract document information''\<rparr>"
  by (simp add: processDocument_unfold processDocument_try_def processDocument_catch_def io_defs
      c_no_data_def c_ok_def invoice_info_def w0_def new_Error_def)




text \<open>
  C4, as amended. When the document identifier is empty, \<open>processDocument\<close> calls
  neither the storage nor the extraction collaborator and writes no \<open>processing\<close> or
  \<open>completed\<close> entry: its only collaborator calls are those of the \<open>catch\<close> block,
  one logging call (status \<open>error\<close>) and one error-status upsert for the empty
  identifier. Provided these two do not throw, it returns
  \<open>{success: false, error: 'Invalid document ID'}\<close>.
\<close>

theorem processDocument_empty_id:
  assumes "error_path_returns c"
  shows "fst (processDocument c [] f w) =
           Inr \<lparr>success = False, error = Some ''Invalid document ID''\<rparr> \<and>
         calls_since w (snd (processDocument c [] f w)) =
           [LogCall (error_entry [] (new_Error ''Invalid document ID'')
              (Date_now c (Suc (clock_reads w)) - Date_now c (clock_reads w))),
            UpsertCall (JSON_body (error_row [] (new_Error ''Invalid document ID'')
              (toISOString c (Date_now c (Suc (Suc (clock_reads w)))))))]"
proof -
  let ?w1 = "w\<lparr>clock_reads := Suc (clock_reads w)\<rparr>"
  let ?err = "new_Error ''Invalid document ID''"
  have tr: "processDocument_try c [] f (Date_now c (clock_reads w)) ?w1 = (Inl ?err, ?w1)"
    by (simp add: processDocument_try_def io_bind_def io_throw_def)
  from catch_run [OF assms, of "[]" ?err ?w1 "Date_now c (clock_reads w)"] tr
  show ?thesis
    by (auto simp add: processDocument_unfold new_Error_def)
qed

theorem processDocument_empty_id_witness:
  "error_path_returns c_ok \<and>
   fst (processDocument c_ok [] ''a.pdf'' w1) =
     Inr \<lparr>success = False, error = Some ''Invalid document ID''\<rparr> \<and>
   calls_since w1 (snd (processDocument c_ok [] ''a.pdf'' w1)) =
     [LogCall (error_entry [] (new_Error ''Invalid document ID'') 1),
      UpsertCall
        [(''document_id'', JString []), (''processing_status'', JString ''error''),
         (''error_message'', JString ''Invalid document ID''), (''updated_at'', JString ''T'')]]"
proof -
  have h: "error_path_returns c_ok"
    by (simp add: error_path_returns_def c_ok_def invoice_info_def)
  have "clock_reads w1 = 4"
    by (simp add: w1_def c_ok_run)
  with processDocument_empty_id [OF h, of "''a.pdf''" w1] h show ?thesis
    by (simp add: c_ok_def invoice_info_def error_row_def JSON_body_def new_Error_def)
qed

text \<open>
  C4 as stated fails: with the empty identifier and collaborators that all succeed, the
  run starts from an empty trace and ends with a logging call and an upsert call.
\<close>

theorem processDocument_empty_id_calls:
  "fst (processDocument c_ok [] ''a.pdf'' w0) =
     Inr \<lparr>success = False, error = Some ''Invalid document ID''\<rparr> \<and>
   calls w0 = [] \<and>
   calls (snd (processDocument c_ok [] ''a.pdf'' w0)) =
     [LogCall (error_entry [] (new_Error ''Invalid document ID'') 1),
      UpsertCall
        [(''document_id'', JString []), (''processing_status'', JString ''error''),
         (''error_message'', JString ''Invalid document ID''), (''updated_at'', JString ''T2'')]]"
  by (simp add: processDocument_unfold processDocument_try_def processDocument_catch_def io_defs
      c_ok_def invoice_info_def w0_def new_Error_def error_row_def JSON_body_def)





section \<open>Call traces of document processing\<close>

lemma appends_return: "appends (io_return x) P"
  by (simp add: appends_def io_return_def)

lemma appends_throw: "appends (io_throw e) P"
  by (simp add: appends_def io_throw_def)

lemma appends_bind:
  assumes "appends m P" and "\<And>x. appends (f x) P"
  shows "appends (io_bind m f) P"
  unfolding appends_def
proof
  fix w
  obtain r w1 where m: "m w = (r, w1)"
    by (cases "m w")
  from assms(1) m obtain cs1 where cs1: "calls w1 = calls w @ cs1" "list_all P cs1"
    unfolding appends_def by (metis snd_conv)
  show "\<exists>cs. calls (snd (io_bind m f w)) = calls w @ cs \<and> list_all P cs"
  proof (cases r)
    case (Inl e)
    with m cs1 show ?thesis
      by (simp add: io_bind_def)
  next
    case (Inr x)
    from assms(2) [of x] obtain cs2 where "calls (snd (f x w1)) = calls w1 @ cs2" "list_all P cs2"
      unfolding appends_def by blast
    with Inr m cs1 show ?thesis
      by (simp add: io_bind_def)
  qed
qed

lemma appends_catch:
  assumes "appends m P" and "\<And>e. appends (h e) P"
  shows "appends (io_catch m h) P"
  unfolding appends_def
proof
  fix w
  obtain r w1 where m: "m w = (r, w1)"
    by (cases "m w")
  from assms(1) m obtain cs1 where cs1: "calls w1 = calls w @ cs1" "list_all P cs1"
    unfolding appends_def by (metis snd_conv)
  show "\<exists>cs. calls (snd (io_catch m h w)) = calls w @ cs \<and> list_all P cs"
  proof (cases r)
    case (Inr x)
    with m cs1 show ?thesis
      by (simp add: io_catch_def)
  next
    case (Inl e)
    from assms(2) [of e] obtain cs2 where "calls (snd (h e w1)) = calls w1 @ cs2" "list_all P cs2"
      unfolding appends_def by blast
    with Inl m cs1 show ?thesis
      by (simp add: io_catch_def)
  qed
qed

lemma appends_await: "P k \<Longrightarrow> appends (await_call k out) P"
  by (simp add: appends_def await_call_def)

lemma appends_read_clock: "appends (read_clock c) P"
  by (simp add: appends_def read_clock_def)

lemma appends_new_Date: "appends (new_Date_toISOString c) P"
  unfolding new_Date_toISOString_def
  by (intro appends_bind appends_read_clock appends_return)

lemma appends_call_upsert:
  assumes "P (UpsertCall (JSON_body obj))"
  shows "appends (call_upsert c obj) P"
proof -
  have "appends (\<lambda>w. (Inr None, w\<lparr>document_info := t w\<rparr>)) P" for t :: "world \<Rightarrow> jsobject list"
    by (simp add: appends_def)
  then show ?thesis
    unfolding call_upsert_def using assms
    by (auto intro!: appends_bind appends_await appends_return split: option.splits)
qed

lemma appends_if:
  "appends a P \<Longrightarrow> appends b P \<Longrightarrow> appends (if x then a else b) P"
  by simp

lemma appends_case_option:
  "appends a P \<Longrightarrow> (\<And>y. appends (b y) P) \<Longrightarrow> appends (case x of None \<Rightarrow> a | Some y \<Rightarrow> b y) P"
  by (cases x) simp_all

lemmas appends_rules = appends_bind appends_catch appends_if appends_case_option
  appends_return appends_throw appends_read_clock appends_new_Date

lemma appends_try:
  assumes "\<And>entry. P (LogCall entry)" and "\<And>path. P (GetPublicUrlCall path)"
    and "\<And>url. P (ExtractCall url)"
    and "\<And>info pd a b. P (UpsertCall (JSON_body (completed_row d f info pd a b)))"
  shows "appends (processDocument_try c d f t0) P"
  unfolding processDocument_try_def call_logProcessing_def call_getPublicUrl_def
    call_extractDocumentInfo_def
  by (intro appends_rules appends_await appends_call_upsert assms)

lemma appends_catch_block:
  assumes "\<And>entry. P (LogCall entry)"
    and "\<And>ts. P (UpsertCall (JSON_body (error_row d err ts)))"
  shows "appends (processDocument_catch c d t0 err) P"
  unfolding processDocument_catch_def call_logProcessing_def
  by (intro appends_rules appends_await appends_call_upsert assms)

lemma appends_processDocument:
  assumes "\<And>entry. P (LogCall entry)" and "\<And>path. P (GetPublicUrlCall path)"
    and "\<And>url. P (ExtractCall url)"
    and "\<And>info pd a b. P (UpsertCall (JSON_body (completed_row d f info pd a b)))"
    and "\<And>err ts. P (UpsertCall (JSON_body (error_row d err ts)))"
  shows "appends (processDocument c d f) P"
  unfolding processDocument_def
  by (intro appends_rules appends_try appends_catch_block assms)


lemma keys_JSON_body: "set (map fst (JSON_body obj)) \<subseteq> set (map fst obj)"
  by (force simp add: JSON_body_def)

lemma appendsD:
  assumes "appends m P"
  obtains cs where "calls (snd (m w)) = calls w @ cs" and "list_all P cs"
  using assms unfolding appends_def by blast

lemma c_no_data_calls:
  "calls (snd (processDocument c_no_data ''doc1'' ''a.pdf'' w0)) =
     [LogCall (processing_entry ''doc1'' ''a.pdf''), GetPublicUrlCall ''a.pdf'',
      ExtractCall ''https://storage/a.pdf'',
      LogCall (error_entry ''doc1'' (new_Error ''Failed to extract document information'') 1),
      UpsertCall
        [(''document_id'', JString ''doc1''), (''processing_status'', JString ''error''),
         (''error_message'', JString ''Failed to extract document information''),
         (''updated_at'', JString ''T2'')]]"
  by (simp add: processDocument_unfold processDocument_try_def processDocument_catch_def io_defs
      c_no_data_def c_ok_def invoice_info_def w0_def new_Error_def error_row_def JSON_body_def)

text \<open>
  C8. Every upsert request that \<open>processDocument\<close> sends with status \<open>error\<close> (the
  request of the \<open>catch\<close> block) supplies no column other than \<open>document_id\<close>,
  \<open>processing_status\<close>, \<open>error_message\<close> and \<open>updated_at\<close>: it is keyed by the
  document identifier and holds none of the extracted fields.
\<close>

theorem error_upsert_columns:
  assumes "UpsertCall row \<in> set (calls_since w (snd (processDocument c d f w)))"
    and "map_of row ''processing_status'' = Some (JString ''error'')"
  shows "set (map fst row) \<subseteq>
           {''document_id'', ''processing_status'', ''error_message'', ''updated_at''} \<and>
         map_of row ''document_id'' = Some (JString d) \<and>
         map_of row ''vendor_name'' = None \<and> map_of row ''invoice_number'' = None \<and>
         map_of row ''invoice_date'' = None \<and> map_of row ''total_amount'' = None"
proof -
  define P where "P k = (\<forall>r. k = UpsertCall r \<longrightarrow>
      map_of r ''processing_status'' = Some (JString ''completed'') \<or>
      (\<exists>err ts. r = JSON_body (error_row d err ts)))" for k
  have "appends (processDocument c d f) P"
    by (rule appends_processDocument) (auto simp add: P_def completed_body_columns)
  then obtain cs where "calls (snd (processDocument c d f w)) = calls w @ cs" and "list_all P cs"
    by (rule appendsD)
  with assms(1) have "P (UpsertCall row)"
    by (simp add: list_all_iff)
  with assms(2) obtain err ts where row: "row = JSON_body (error_row d err ts)"
    by (auto simp add: P_def)
  have keys: "set (map fst row) \<subseteq>
      {''document_id'', ''processing_status'', ''error_message'', ''updated_at''}"
    unfolding row using keys_JSON_body [of "error_row d err ts"]
    by (simp add: error_row_def)
  then have "map_of row ''vendor_name'' = None" and "map_of row ''invoice_number'' = None"
    and "map_of row ''invoice_date'' = None" and "map_of row ''total_amount'' = None"
    unfolding map_of_eq_None_iff by auto
  moreover have "map_of row ''document_id'' = Some (JString d)"
    unfolding row by (rule error_body_columns)
  ultimately show ?thesis
    using keys by simp
qed

theorem error_upsert_columns_witness:
  "UpsertCall
     [(''document_id'', JString ''doc1''), (''processing_status'', JString ''error''),
      (''error_message'', JString ''Failed to extract document information''),
      (''updated_at'', JString ''T2'')]
     \<in> set (calls_since w0 (snd (processDocument c_no_data ''doc1'' ''a.pdf'' w0))) \<and>
   map_of
     [(''document_id'', JString ''doc1''), (''processing_status'', JString ''error''),
      (''error_message'', JString ''Failed to extract document information''),
      (''updated_at'', JString ''T2'')] ''vendor_name'' = None"
proof -
  let ?row = "[(''document_id'', JString ''doc1''), (''processing_status'', JString ''error''),
      (''error_message'', JString ''Failed to extract document information''),
      (''updated_at'', JString ''T2'')]"
  have 1: "UpsertCall ?row \<in> set (calls_since w0 (snd (processDocument c_no_data ''doc1'' ''a.pdf'' w0)))"
    unfolding calls_since_def c_no_data_calls by (simp add: w0_def)
  have 2: "map_of ?row ''processing_status'' = Some (JString ''error'')"
    by simp
  from error_upsert_columns [OF 1 2] 1 show ?thesis
    by blast
qed

lemma error_path_returns_c_bad_date: "error_path_returns c_bad_date"
  by (simp add: error_path_returns_def c_bad_date_def c_ok_def invoice_info_def)

text \<open>
  C5, as amended. When the run reaches the extraction and the extracted record has a
  non-empty \<open>invoiceDate\<close> that the date normalisation does not parse, no upsert request
  with status \<open>completed\<close> is sent during the run, and, provided the two collaborator
  calls of the \<open>catch\<close> block do not throw, \<open>processDocument\<close> returns
  \<open>{success: false}\<close> whose message is \<open>'Invalid date format: '\<close> followed by the
  offending string.
\<close>

theorem processDocument_bad_date:
  assumes "d \<noteq> []" and "logProcessing c (processing_entry d f) = Returns ()"
    and "getPublicUrl c f = Returns url" and "urlError url = None"
    and "extractDocumentInfo c (publicUrl url) = Returns (Some info)"
    and "invoiceDate info = Some s" and "s \<noteq> []" and "\<not> truthy_string (parseDate c s)"
  shows "(\<forall>row. UpsertCall row \<in> set (calls_since w (snd (processDocument c d f w)))
            \<longrightarrow> map_of row ''processing_status'' \<noteq> Some (JString ''completed'')) \<and>
         (error_path_returns c \<longrightarrow>
            fst (processDocument c d f w) =
              Inr \<lparr>success = False, error = Some (''Invalid date format: '' @ s)\<rparr>)"
proof -
  let ?t0 = "Date_now c (clock_reads w)"
  let ?err = "new_Error (''Invalid date format: '' @ s)"
  let ?w1 = "w\<lparr>clock_reads := Suc (clock_reads w)\<rparr>"
  let ?w2 = "?w1\<lparr>calls := calls w @
      [LogCall (processing_entry d f), GetPublicUrlCall f, ExtractCall (publicUrl url)]\<rparr>"
  define P where "P k = (\<forall>row. k = UpsertCall row \<longrightarrow>
      map_of row ''processing_status'' \<noteq> Some (JString ''completed''))" for k
  have tr: "processDocument_try c d f ?t0 ?w1 = (Inl ?err, ?w2)"
    using assms by (simp add: processDocument_try_def io_defs parsed_date_def)
  then have run: "processDocument c d f w = processDocument_catch c d ?t0 ?err ?w2"
    by (simp add: processDocument_unfold)
  have "appends (processDocument_catch c d ?t0 ?err) P"
    by (rule appends_catch_block) (simp_all add: P_def error_body_columns)
  then obtain cs where "calls (snd (processDocument_catch c d ?t0 ?err ?w2)) = calls ?w2 @ cs"
    and cs: "list_all P cs"
    by (rule appendsD)
  then have "calls_since w (snd (processDocument c d f w)) =
      [LogCall (processing_entry d f), GetPublicUrlCall f, ExtractCall (publicUrl url)] @ cs"
    unfolding run by (simp add: calls_since_def)
  with cs have 1: "\<forall>row. UpsertCall row \<in> set (calls_since w (snd (processDocument c d f w)))
            \<longrightarrow> map_of row ''processing_status'' \<noteq> Some (JString ''completed'')"
    by (auto simp add: list_all_iff P_def)
  have 2: "fst (processDocument c d f w) =
      Inr \<lparr>success = False, error = Some (''Invalid date format: '' @ s)\<rparr>"
    if "error_path_returns c"
    using catch_run [OF that, of d ?err ?w2 ?t0] assms(7) unfolding run
    by (auto simp add: new_Error_def)
  from 1 2 show ?thesis
    by blast
qed

theorem processDocument_bad_date_witness:
  "error_path_returns c_bad_date \<and>
   fst (processDocument c_bad_date ''doc1'' ''a.pdf'' w1) =
     Inr \<lparr>success = False, error = Some ''Invalid date format: not-a-date''\<rparr> \<and>
   list_all (\<lambda>row. map_of row ''processing_status'' = Some (JString ''completed''))
     (rows_for ''doc1'' w1)"
proof -
  let ?url = "\<lparr>publicUrl = ''https://storage/a.pdf'', urlError = None\<rparr>"
  let ?info = "invoice_info\<lparr>invoiceDate := Some ''not-a-date''\<rparr>"
  have h: "''doc1'' \<noteq> []"
    "logProcessing c_bad_date (processing_entry ''doc1'' ''a.pdf'') = Returns ()"
    "getPublicUrl c_bad_date ''a.pdf'' = Returns ?url"
    "urlError ?url = None"
    "extractDocumentInfo c_bad_date (publicUrl ?url) = Returns (Some ?info)"
    "invoiceDate ?info = Some ''not-a-date''"
    "''not-a-date'' \<noteq> []"
    "\<not> truthy_string (parseDate c_bad_date ''not-a-date'')"
    by (simp_all add: c_bad_date_def c_ok_def invoice_info_def)
  have "list_all (\<lambda>row. map_of row ''processing_status'' = Some (JString ''completed''))
     (rows_for ''doc1'' w1)"
    by (simp add: w1_def c_ok_run rows_for_def key_of_def)
  with processDocument_bad_date [OF h, of w1] error_path_returns_c_bad_date show ?thesis
    by simp
qed

text \<open>
  C5 as stated fails: with an unparseable date and a log store that rejects the
  \<open>error\<close> entry, \<open>processDocument\<close> returns no result at all; the exception of the
  logging call escapes.
\<close>

theorem processDocument_bad_date_escapes:
  "fst (processDocument c_bad_date_log_down ''doc1'' ''a.pdf'' w0) =
     Inl (Thrown (Some ''log store unavailable''))"
  by (simp add: processDocument_unfold processDocument_try_def processDocument_catch_def io_defs
      c_bad_date_log_down_def c_bad_date_def c_ok_def invoice_info_def w0_def new_Error_def error_entry_def
      processing_entry_def parsed_date_def)

lemma io_bind_return: "io_bind (io_return x) f = f x"
  by (simp add: io_bind_def io_return_def)

lemma appends_first:
  assumes "\<And>x. appends (g x) P"
  shows "\<exists>cs. calls (snd (io_bind (await_call k out) g w)) = calls w @ k # cs"
proof (cases out)
  case (Throws t)
  then show ?thesis
    by (simp add: io_bind_def await_call_def)
next
  case (Returns x)
  from assms [of x] obtain cs where
    "calls (snd (g x (w\<lparr>calls := calls w @ [k]\<rparr>))) = calls (w\<lparr>calls := calls w @ [k]\<rparr>) @ cs"
    by (rule appendsD)
  with Returns show ?thesis
    by (simp add: io_bind_def await_call_def)
qed

lemma try_first_call:
  assumes "d \<noteq> []"
  shows "\<exists>cs. calls (snd (processDocument_try c d f t0 w)) =
           calls w @ LogCall (processing_entry d f) # cs"
  unfolding processDocument_try_def call_logProcessing_def call_getPublicUrl_def
    call_extractDocumentInfo_def
  apply (simp only: assms if_False io_bind_return)
  apply (rule appends_first [where P = "\<lambda>k. True"])
  apply (intro appends_rules appends_await appends_call_upsert TrueI)
  done

lemma processDocument_first_call:
  assumes "d \<noteq> []"
  shows "\<exists>cs. calls_since w (snd (processDocument c d f w)) = LogCall (processing_entry d f) # cs"
proof -
  let ?t0 = "Date_now c (clock_reads w)"
  let ?w1 = "w\<lparr>clock_reads := Suc (clock_reads w)\<rparr>"
  obtain res w2 where tr: "processDocument_try c d f ?t0 ?w1 = (res, w2)"
    by (cases "processDocument_try c d f ?t0 ?w1")
  from try_first_call [OF assms, of c f ?t0 ?w1] tr
  obtain cs where cs: "calls w2 = calls w @ LogCall (processing_entry d f) # cs"
    by auto
  show ?thesis
  proof (cases res)
    case (Inr x)
    with tr cs show ?thesis
      by (simp add: processDocument_unfold)
  next
    case (Inl err)
    have "appends (processDocument_catch c d ?t0 err) (\<lambda>k. True)"
      by (rule appends_catch_block) simp_all
    then obtain cs2 where "calls (snd (processDocument_catch c d ?t0 err w2)) = calls w2 @ cs2"
      by (rule appendsD)
    with Inl tr cs show ?thesis
      by (simp add: processDocument_unfold)
  qed
qed

lemma rows_after_upsert_all:
  "filter (\<lambda>r. key_of r = key_of new) (upsert_row new table) \<noteq> [] \<and>
   (\<forall>row \<in> set (filter (\<lambda>r. key_of r = key_of new) (upsert_row new table)).
      \<forall>col v. map_of new col = Some v \<longrightarrow> map_of row col = Some v)"
proof (cases "list_ex (\<lambda>r. key_of r = key_of new) table")
  case True
  then have "filter (\<lambda>r. key_of r = key_of new) table \<noteq> []"
    by (simp add: list_ex_iff filter_empty_conv)
  with True show ?thesis
    by (auto simp add: upsert_row_def filter_key_merge map_of_merge_row)
next
  case False
  then have "filter (\<lambda>r. key_of r = key_of new) table = []"
    by (simp add: list_ex_iff filter_empty_conv)
  with False show ?thesis
    by (simp add: upsert_row_def)
qed

lemma catch_Inr_effect:
  assumes "processDocument_catch c d t0 err w = (Inr r, w')"
  shows "\<exists>dbError.
     upsert c (JSON_body (error_row d err (toISOString c (Date_now c (Suc (clock_reads w))))))
       = Returns dbError \<and>
     document_info w' =
       (if dbError = None
        then upsert_row (JSON_body (error_row d err
               (toISOString c (Date_now c (Suc (clock_reads w)))))) (document_info w)
        else document_info w)"
  using assms unfolding processDocument_catch_def
  by (auto elim!: io_bind_InrE simp add: call_logProcessing_def await_call_Inr read_clock_eq
      new_Date_toISOString_eq call_upsert_Inr io_return_def)

text \<open>
  C3, as amended. In every run for a non-empty identifier the first collaborator call
  is the logging call with status \<open>processing\<close> (a log entry: the table row is never
  given that status). When the run returns \<open>{success: true}\<close>, every row of the
  identifier, and there is one, has status \<open>completed\<close>; when it returns
  \<open>{success: false}\<close> and the database accepts the error-status upsert, every row of
  the identifier, and there is one, has status \<open>error\<close>.
\<close>

theorem processDocument_terminal_status:
  assumes "d \<noteq> []" and "fst (processDocument c d f w) = Inr r"
    and "\<not> success r \<longrightarrow>
           (\<forall>row. map_of row ''processing_status'' = Some (JString ''error'')
              \<longrightarrow> upsert c row = Returns None)"
  shows "(\<exists>cs. calls_since w (snd (processDocument c d f w)) =
            LogCall (processing_entry d f) # cs) \<and>
         rows_for d (snd (processDocument c d f w)) \<noteq> [] \<and>
         list_all (\<lambda>row. column row ''processing_status'' =
                      JString (if success r then ''completed'' else ''error''))
           (rows_for d (snd (processDocument c d f w)))"
proof -
  let ?t0 = "Date_now c (clock_reads w)"
  let ?w1 = "w\<lparr>clock_reads := Suc (clock_reads w)\<rparr>"
  let ?w' = "snd (processDocument c d f w)"
  have rows: "rows_for d ?w' \<noteq> [] \<and>
      list_all (\<lambda>row. column row ''processing_status'' = JString st) (rows_for d ?w')"
    if table: "document_info ?w' = upsert_row body table"
      and key: "key_of body = Some (JString d)"
      and st: "map_of body ''processing_status'' = Some (JString st)"
    for body table st
    using rows_after_upsert_all [of body table] st
    unfolding rows_for_def table key by (auto simp add: list_all_iff column_def)
  have status: "rows_for d ?w' \<noteq> [] \<and>
      list_all (\<lambda>row. column row ''processing_status'' =
                   JString (if success r then ''completed'' else ''error''))
        (rows_for d ?w')"
  proof (cases "success r")
    case True
    with assms(2) obtain url info where "document_info ?w' =
        upsert_row (JSON_body (completed_row d f info (parsed_date c info)
            (toISOString c (Date_now c (Suc (clock_reads w))))
            (toISOString c (Date_now c (Suc (Suc (clock_reads w))))))) (document_info w)"
      by (rule table_after_success)
    from rows [OF this key_of_completed_body completed_body_columns(1)] True show ?thesis
      by simp
  next
    case False
    obtain res w2 where tr: "processDocument_try c d f ?t0 ?w1 = (res, w2)"
      by (cases "processDocument_try c d f ?t0 ?w1")
    show ?thesis
    proof (cases res)
      case (Inr x)
      with tr assms(2) False try_Inr [of c d f ?t0 ?w1 x w2] show ?thesis
        by (simp add: processDocument_unfold)
    next
      case (Inl err)
      with tr assms(2) have run: "processDocument c d f w = processDocument_catch c d ?t0 err w2"
        and "fst (processDocument_catch c d ?t0 err w2) = Inr r"
        by (simp_all add: processDocument_unfold)
      then have "processDocument_catch c d ?t0 err w2 = (Inr r, ?w')"
        by (metis prod.collapse)
      from catch_Inr_effect [OF this] assms(3) False
      have "document_info ?w' =
          upsert_row (JSON_body (error_row d err
            (toISOString c (Date_now c (Suc (clock_reads w2)))))) (document_info w2)"
        by (auto simp add: error_body_columns)
      from rows [OF this key_of_error_body error_body_columns(1)] False show ?thesis
        by simp
    qed
  qed
  with processDocument_first_call [OF assms(1), of w c f] show ?thesis
    by blast
qed

theorem processDocument_terminal_status_witness:
  "fst (processDocument c_no_data ''doc1'' ''a.pdf'' w0) =
     Inr \<lparr>success = False, error = Some ''Failed to extract document information''\<rparr> \<and>
   rows_for ''doc1'' (snd (processDocument c_no_data ''doc1'' ''a.pdf'' w0)) \<noteq> [] \<and>
   list_all (\<lambda>row. column row ''processing_status'' = JString ''error'')
     (rows_for ''doc1'' (snd (processDocument c_no_data ''doc1'' ''a.pdf'' w0)))"
proof -
  let ?r = "\<lparr>success = False, error = Some ''Failed to extract document information''\<rparr>"
  have 1: "''doc1'' \<noteq> []"
    by simp
  have 2: "\<not> success ?r \<longrightarrow>
      (\<forall>row. map_of row ''processing_status'' = Some (JString ''error'')
         \<longrightarrow> upsert c_no_data row = Returns None)"
    by (simp add: c_no_data_def c_ok_def invoice_info_def)
  from processDocument_terminal_status [OF 1 c_no_data_run 2] c_no_data_run show ?thesis
    by simp
qed

text \<open>
  C3 as stated fails: after a successful run, a second run whose extraction returns no
  data while the database refuses the upsert returns \<open>{success: false}\<close> and leaves the
  row of the document with status \<open>completed\<close>; the \<open>catch\<close> block does not read the
  response of its upsert.
\<close>

theorem processDocument_stale_status:
  "fst (processDocument c_no_data_db_down ''doc1'' ''a.pdf'' w1) =
     Inr \<lparr>success = False, error = Some ''Failed to extract document information''\<rparr> \<and>
   map (\<lambda>row. column row ''processing_status'')
     (rows_for ''doc1'' (snd (processDocument c_no_data_db_down ''doc1'' ''a.pdf'' w1))) =
     [JString ''completed'']"
  unfolding w1_def c_ok_run snd_conv
  by (simp add: processDocument_unfold processDocument_try_def
      processDocument_catch_def io_defs c_no_data_db_down_def c_no_data_def c_ok_def invoice_info_def
      new_Error_def rows_for_def key_of_def column_def)

section \<open>Page-count estimation\<close>



lemma getDocumentPageCount_never_throws:
  "\<exists>v. fst (getDocumentPageCount c documentId fileUrl w) = Inr v"
  by (cases "getDocumentPageCount_try c documentId fileUrl w")
     (auto simp add: getDocumentPageCount_def io_catch_def io_return_def split: sum.splits)

text \<open>
  C10. \<open>getDocumentPageCount\<close> never throws (lemma above), but it does not always
  return a positive integer: when no count is stored and the \<open>HEAD\<close> probe answers
  \<open>ok\<close> with a \<open>content-length\<close> header that is not a number (here \<open>'abc'\<close>),
  \<open>parseInt\<close> gives \<open>NaN\<close>, \<open>Math.max(1, Math.ceil(NaN / 102400))\<close> is \<open>NaN\<close>, and
  \<open>NaN\<close> is what the function returns.
\<close>

theorem getDocumentPageCount_not_a_number:
  "fst (getDocumentPageCount c_nan ''doc1'' ''a.pdf'' w0) = Inr (JNumber NaN)"
  by (simp add: getDocumentPageCount_def getDocumentPageCount_try_def io_defs
      call_select_page_count_def call_fetch_head_def page_count_of_def rows_for_def
      c_nan_def c_ok_def invoice_info_def w0_def parseInt_def is_space_def is_digit_def digit_of_def
      estimated_pages_def Let_def)

end
